theory Spec2Isabelle
  imports Complex_Main "HOL-Library.AList" "HOL-Library.Product_Lexorder"
begin

section \<open>Order book state engine (kalshi_database.py, class OrderbookDatabase)\<close>

text \<open>
  The in-memory state is the Python dictionary
  \<^verbatim>\<open>{ticker: {"yes": {price: size}, "no": {price: size}}}\<close>.
  A Python dictionary keeps its keys distinct and in insertion order; it is modelled
  as an association list, written with \<open>AList.update\<close> (overwrite in place, or append a new
  key at the end) and \<open>AList.delete\<close> (what \<^verbatim>\<open>pop(key, None)\<close> does), and read with
  \<open>map_of\<close>. The per-market dictionary is only ever created as
  \<^verbatim>\<open>{"yes": {}, "no": {}}\<close>, so it is a record of two price-level dictionaries; a side
  that is neither \<^verbatim>\<open>"yes"\<close> nor \<^verbatim>\<open>"no"\<close> raises \<^verbatim>\<open>KeyError\<close> as in the source.

  A snapshot (the \<^verbatim>\<open>orderbook_snapshot\<close> message, and the JSON persisted in the table
  \<^verbatim>\<open>orderbook_snapshots\<close>) has two arrays of \<^verbatim>\<open>[price, size]\<close> pairs; a missing key reads
  as the empty array (\<^verbatim>\<open>.get("yes", [])\<close>). Prices and sizes are Python integers.

  A delta message (\<^verbatim>\<open>orderbook_delta\<close>) is a record of the keys the update reads: the
  three it indexes, \<^verbatim>\<open>price\<close>, \<^verbatim>\<open>delta\<close> and \<^verbatim>\<open>side\<close>, which the feed always sends, and
  \<^verbatim>\<open>ts\<close>, the empty string when the key is absent (\<^verbatim>\<open>.get("ts", "")\<close>).
\<close>

type_synonym levels = "(int \<times> int) list"

record book =
  book_yes :: levels
  book_no :: levels

record snapshot =
  yes :: "(int \<times> int) list"
  no :: "(int \<times> int) list"

record delta_msg =
  msg_price :: int
  msg_delta :: int
  msg_side :: string
  msg_ts :: string

datatype error = KeyError string

text \<open>
  The engine: the dictionary \<^verbatim>\<open>self.orderbook_state\<close> and the rows
  \<^verbatim>\<open>(timestamp, ticker, snapshot_data)\<close> inserted so far into the table
  \<^verbatim>\<open>orderbook_snapshots\<close>, oldest first.
\<close>

record engine =
  orderbook_state :: "(string \<times> book) list"
  orderbook_snapshots :: "(int \<times> string \<times> snapshot) list"

definition empty_book :: book where
  "empty_book = \<lparr>book_yes = [], book_no = []\<rparr>"

definition empty_engine :: engine where
  "empty_engine = \<lparr>orderbook_state = [], orderbook_snapshots = []\<rparr>"

text \<open>
  \<^verbatim>\<open>if ticker not in self.orderbook_state: self.orderbook_state[ticker] = {"yes": {}, "no": {}}\<close>
\<close>

definition ensure_book :: "string \<Rightarrow> (string \<times> book) list \<Rightarrow> (string \<times> book) list" where
  "ensure_book ticker st =
     (case map_of st ticker of
        None \<Rightarrow> AList.update ticker empty_book st
      | Some _ \<Rightarrow> st)"

text \<open>\<^verbatim>\<open>self.orderbook_state[ticker]\<close>, read after \<open>ensure_book\<close> (so the key is present).\<close>

definition get_book :: "(string \<times> book) list \<Rightarrow> string \<Rightarrow> book" where
  "get_book st ticker = (case map_of st ticker of Some b \<Rightarrow> b | None \<Rightarrow> empty_book)"

definition store_orderbook_snapshot :: "string \<Rightarrow> int \<Rightarrow> snapshot \<Rightarrow> engine \<Rightarrow> engine" where
  "store_orderbook_snapshot ticker timestamp snap e =
     e\<lparr>orderbook_snapshots := orderbook_snapshots e @ [(timestamp, ticker, snap)]\<rparr>"

text \<open>
  The two \<^verbatim>\<open>for price, size in ...: d[price] = size\<close> loops write every pair of the array
  into the dictionary that is already there. \<open>now\<close> is the wall clock
  \<^verbatim>\<open>int(datetime.now().timestamp())\<close>, a parameter of the model. The row persisted is the
  message itself.
\<close>

definition store_levels :: "levels \<Rightarrow> (int \<times> int) list \<Rightarrow> levels" where
  "store_levels d arr = foldl (\<lambda>d (price, size). AList.update price size d) d arr"

definition initialize_orderbook_from_snapshot ::
  "int \<Rightarrow> string \<Rightarrow> snapshot \<Rightarrow> engine \<Rightarrow> engine" where
  "initialize_orderbook_from_snapshot now ticker snapshot_msg e =
     (let st = ensure_book ticker (orderbook_state e);
          b = get_book st ticker;
          b1 = b\<lparr>book_yes := store_levels (book_yes b) (yes snapshot_msg)\<rparr>;
          b2 = b1\<lparr>book_no := store_levels (book_no b1) (no snapshot_msg)\<rparr>
      in store_orderbook_snapshot ticker now snapshot_msg
           (e\<lparr>orderbook_state := AList.update ticker b2 st\<rparr>))"

text \<open>\<^verbatim>\<open>self.orderbook_state[ticker][side]\<close>: reading and writing one side of a book.\<close>

definition side_levels :: "book \<Rightarrow> string \<Rightarrow> error + levels" where
  "side_levels b s =
     (if s = ''yes'' then Inr (book_yes b)
      else if s = ''no'' then Inr (book_no b)
      else Inl (KeyError s))"

definition set_side_levels :: "book \<Rightarrow> string \<Rightarrow> levels \<Rightarrow> book" where
  "set_side_levels b s l = (if s = ''yes'' then b\<lparr>book_yes := l\<rparr> else b\<lparr>book_no := l\<rparr>)"

text \<open>
  The timestamp of a delta: \<^verbatim>\<open>ts_str.replace('Z', '+00:00')\<close> is parsed by
  \<^verbatim>\<open>datetime.fromisoformat\<close> and truncated to epoch seconds; the parser is the parameter
  \<open>fromisoformat\<close> (\<open>None\<close> when it raises). An empty or unparseable string falls back to
  the wall clock \<open>now\<close>.
\<close>

definition replace_Z :: "string \<Rightarrow> string" where
  "replace_Z s = concat (map (\<lambda>c. if c = CHR ''Z'' then ''+00:00'' else [c]) s)"

definition resolve_timestamp :: "(string \<Rightarrow> int option) \<Rightarrow> int \<Rightarrow> string \<Rightarrow> int" where
  "resolve_timestamp fromisoformat now ts_str =
     (if ts_str \<noteq> [] then
        (case fromisoformat (replace_Z ts_str) of Some t \<Rightarrow> t | None \<Rightarrow> now)
      else now)"

text \<open>
  The block under \<^verbatim>\<open># Update the orderbook\<close>, on the dictionary of one side:
  \<^verbatim>\<open>current_size = d.get(price, 0); new_size = current_size + delta\<close>, then
  \<^verbatim>\<open>d.pop(price, None)\<close> when \<^verbatim>\<open>new_size <= 0\<close> and \<^verbatim>\<open>d[price] = new_size\<close> otherwise.
\<close>

definition apply_delta_levels :: "int \<Rightarrow> int \<Rightarrow> levels \<Rightarrow> levels" where
  "apply_delta_levels price delta d =
     (let current_size = (case map_of d price of Some s \<Rightarrow> s | None \<Rightarrow> 0);
          new_size = current_size + delta
      in if new_size \<le> 0 then AList.delete price d
         else AList.update price new_size d)"

text \<open>
  \<^verbatim>\<open>update_orderbook_state\<close>. The result is the engine after the call and the exception
  raised, if any: a \<^verbatim>\<open>KeyError\<close> on the side leaves the book created by the first two lines
  in place and persists nothing. The snapshot persisted lists both sides with
  \<^verbatim>\<open>sorted(d.items())\<close>, the order of Python tuples.
\<close>

definition update_orderbook_state ::
  "(string \<Rightarrow> int option) \<Rightarrow> int \<Rightarrow> string \<Rightarrow> delta_msg \<Rightarrow> engine \<Rightarrow> engine \<times> error option" where
  "update_orderbook_state fromisoformat now ticker delta_msg e =
     (let st = ensure_book ticker (orderbook_state e);
          e0 = e\<lparr>orderbook_state := st\<rparr>;
          b = get_book st ticker;
          price = msg_price delta_msg;
          delta = msg_delta delta_msg;
          side = msg_side delta_msg
      in case side_levels b side of
           Inl err \<Rightarrow> (e0, Some err)
         | Inr d \<Rightarrow>
             (let d' = apply_delta_levels price delta d;
                  b' = set_side_levels b side d';
                  timestamp = resolve_timestamp fromisoformat now (msg_ts delta_msg);
                  snap = \<lparr>yes = sort (book_yes b'), no = sort (book_no b')\<rparr>
              in (store_orderbook_snapshot ticker timestamp snap
                    (e0\<lparr>orderbook_state := AList.update ticker b' st\<rparr>), None)))"

text \<open>
  A sequence of deltas, each with the wall clock at its arrival and its ticker, applied in
  order; the engine is carried on whether or not a call raised.
\<close>

definition apply_deltas ::
  "(string \<Rightarrow> int option) \<Rightarrow> engine \<Rightarrow> (int \<times> string \<times> delta_msg) list \<Rightarrow> engine" where
  "apply_deltas fromisoformat e ds =
     foldl (\<lambda>e (now, ticker, m). fst (update_orderbook_state fromisoformat now ticker m e)) e ds"

text \<open>The levels of one side of one market (no levels when the market has no state).\<close>

definition levels_of :: "engine \<Rightarrow> string \<Rightarrow> string \<Rightarrow> levels" where
  "levels_of e ticker s =
     (case map_of (orderbook_state e) ticker of
        None \<Rightarrow> []
      | Some b \<Rightarrow> (case side_levels b s of Inr d \<Rightarrow> d | Inl _ \<Rightarrow> []))"

text \<open>The invariant: every stored and every persisted level has a size above zero.\<close>

definition levels_positive :: "(int \<times> int) list \<Rightarrow> bool" where
  "levels_positive d = list_all (\<lambda>(price, size). 0 < size) d"

definition book_positive :: "book \<Rightarrow> bool" where
  "book_positive b = (levels_positive (book_yes b) \<and> levels_positive (book_no b))"

definition snapshot_positive :: "snapshot \<Rightarrow> bool" where
  "snapshot_positive s = (levels_positive (yes s) \<and> levels_positive (no s))"

definition sizes_positive :: "engine \<Rightarrow> bool" where
  "sizes_positive e =
     (list_all (\<lambda>(ticker, b). book_positive b) (orderbook_state e) \<and>
      list_all (\<lambda>(timestamp, ticker, s). snapshot_positive s) (orderbook_snapshots e))"


section \<open>Best-price extractors (analyze_slippage.py, imbalance_predictability.py)\<close>

text \<open>
  Both extractors take the JSON text of the column \<^verbatim>\<open>snapshot_data\<close> and work inside one
  \<^verbatim>\<open>try\<close> block. Their argument here is the decoded snapshot, \<open>None\<close> standing for a text
  on which the block raises (\<^verbatim>\<open>json.loads\<close> fails, or the value has not the shape
  \<^verbatim>\<open>{"yes": [[price, size], ...], "no": [[price, size], ...]}\<close> that
  \<^verbatim>\<open>store_orderbook_snapshot\<close> writes). A result \<^verbatim>\<open>None\<close> or \<^verbatim>\<open>np.nan\<close> of the source is
  \<open>None\<close> in the model. Prices read from a snapshot are integers; a mid-price is half an
  integer, which binary floating point represents exactly, so it is a rational here.
\<close>

text \<open>
  \<^verbatim>\<open>max([p[0] for p in levels])\<close> on a list that the guard \<^verbatim>\<open>if levels:\<close> has found
  non-empty, given as its head and tail.
\<close>

definition max_of :: "int \<Rightarrow> int list \<Rightarrow> int" where
  "max_of p ps = foldl max p ps"

text \<open>
  \<^verbatim>\<open>max(levels, key=lambda x: x[0])\<close>, also on a non-empty list: Python keeps the first
  level among those of the greatest price.
\<close>

definition max_by_price :: "int \<times> int \<Rightarrow> (int \<times> int) list \<Rightarrow> int \<times> int" where
  "max_by_price x xs = foldl (\<lambda>best y. if fst best < fst y then y else best) x xs"

definition get_best_prices :: "snapshot option \<Rightarrow> int option \<times> int option" where
  "get_best_prices snapshot_json =
     (case snapshot_json of
        None \<Rightarrow> (None, None)
      | Some data \<Rightarrow>
          (let yes_bids = yes data;
               no_bids = no data;
               best_bid = (case map fst yes_bids of [] \<Rightarrow> 0 | p # ps \<Rightarrow> max_of p ps);
               best_ask = (case map fst no_bids of [] \<Rightarrow> 100
                           | p # ps \<Rightarrow> (let best_no_bid = max_of p ps in 100 - best_no_bid))
           in (Some best_bid, Some best_ask)))"

text \<open>\<^verbatim>\<open>snapshots_df['mid_price'] = (snapshots_df['best_bid'] + snapshots_df['best_ask']) / 2\<close>\<close>

definition mid_price_of :: "int option \<times> int option \<Rightarrow> rat option" where
  "mid_price_of ba =
     (case ba of
        (Some best_bid, Some best_ask) \<Rightarrow> Some ((of_int best_bid + of_int best_ask) / 2)
      | _ \<Rightarrow> None)"

text \<open>
  \<^verbatim>\<open>parse_snapshot\<close> of imbalance_predictability.py returns
  \<^verbatim>\<open>(best_bid_price, best_bid_size, best_ask_price, best_ask_size)\<close>.
\<close>

definition parse_snapshot ::
  "snapshot option \<Rightarrow> int option \<times> int option \<times> int option \<times> int option" where
  "parse_snapshot snapshot_data =
     (case snapshot_data of
        None \<Rightarrow> (None, None, None, None)
      | Some data \<Rightarrow>
          (let yes_levels = yes data;
               no_levels = no data;
               (best_bid_price, best_bid_size) =
                  (case yes_levels of
                     [] \<Rightarrow> (None, None)
                   | x # xs \<Rightarrow> (let best_yes = max_by_price x xs
                                in (Some (fst best_yes), Some (snd best_yes))));
               (best_ask_price, best_ask_size) =
                  (case no_levels of
                     [] \<Rightarrow> (None, None)
                   | x # xs \<Rightarrow> (let best_no = max_by_price x xs;
                                    best_no_price = fst best_no;
                                    best_no_size = snd best_no
                                in (Some (100 - best_no_price), Some best_no_size)))
           in (best_bid_price, best_bid_size, best_ask_price, best_ask_size)))"

section \<open>Trade normalizer (analyze_imbalance.py)\<close>

text \<open>
  The JSON object of the column \<^verbatim>\<open>trade_data\<close>, with the four keys the analyses read; a
  field is \<open>None\<close> when the key is absent. For \<^verbatim>\<open>yes_price\<close>, whose absence alone makes
  the analysis read \<^verbatim>\<open>yes_price_dollars\<close>, \<open>None\<close> is the absent key, \<open>Some None\<close> the
  JSON value null and \<open>Some (Some p)\<close> a number; counts are integers of any size, as
  Python decodes them. A row of the table \<^verbatim>\<open>trades\<close> is its timestamp
  and its decoded \<^verbatim>\<open>trade_data\<close>, \<open>None\<close> for a text on which the \<^verbatim>\<open>try\<close> block of
  \<^verbatim>\<open>get_trade_details\<close> raises. A row of \<^verbatim>\<open>orderbook_snapshots\<close> is its timestamp and
  its decoded \<^verbatim>\<open>snapshot_data\<close>.
\<close>

record trade_json =
  count :: "int option"
  taker_side :: "string option"
  yes_price :: "rat option option"
  yes_price_dollars :: "rat option"

type_synonym trade_row = "int \<times> trade_json option"

type_synonym snapshot_row = "int \<times> snapshot option"

text \<open>
  \<^verbatim>\<open>str.lower\<close>, on the ASCII letters. A string is a list of bytes here, and the bytes of
  any other character are left as they are; Python lower-cases no other character to a
  letter of \<^verbatim>\<open>yes\<close> or \<^verbatim>\<open>no\<close>, so the comparisons of \<^verbatim>\<open>process_trades\<close> come out the same.
\<close>

definition lower_char :: "char \<Rightarrow> char" where
  "lower_char c =
     (let n = (of_char c :: nat) in if 65 \<le> n \<and> n \<le> 90 then char_of (n + 32) else c)"

definition lower :: "string \<Rightarrow> string" where
  "lower s = map lower_char s"

text \<open>
  \<^verbatim>\<open>get_trade_details\<close> nested in \<^verbatim>\<open>process_trades\<close>:
  \<^verbatim>\<open>count = data.get('count', 0); taker_side = data.get('taker_side', '').lower()\<close>, and
  \<^verbatim>\<open>(0, '')\<close> when anything raises.
\<close>

definition get_trade_details_imbalance :: "trade_json option \<Rightarrow> int \<times> string" where
  "get_trade_details_imbalance trade_json =
     (case trade_json of
        None \<Rightarrow> (0, [])
      | Some data \<Rightarrow>
          (case count data of None \<Rightarrow> 0 | Some c \<Rightarrow> c,
           lower (case taker_side data of None \<Rightarrow> [] | Some s \<Rightarrow> s)))"

record signed_trade =
  sv_timestamp :: int
  sv_count :: int
  sv_taker_side :: string
  signed_volume :: int

text \<open>
  The column \<^verbatim>\<open>count\<close> of the frame is an array of one machine type, which the library
  infers from all the counts: \<^verbatim>\<open>int64\<close> when every count fits it, \<^verbatim>\<open>uint64\<close> when none
  is negative and every one fits that, and otherwise \<^verbatim>\<open>object\<close>, an array of Python
  integers. The unary minus of \<^verbatim>\<open>-trades_df['count']\<close> and of
  \<^verbatim>\<open>-trades_df['signed_volume']\<close> works in that type: it wraps around in the two 64-bit
  types.
\<close>

datatype dtype = Int64 | UInt64 | Object

definition infer_dtype :: "int list \<Rightarrow> dtype" where
  "infer_dtype cs =
     (if list_all (\<lambda>c. - (2 ^ 63) \<le> c \<and> c < 2 ^ 63) cs then Int64
      else if list_all (\<lambda>c. 0 \<le> c \<and> c < 2 ^ 64) cs then UInt64
      else Object)"

definition negate :: "dtype \<Rightarrow> int \<Rightarrow> int" where
  "negate dt c =
     (case dt of
        Int64 \<Rightarrow> (- c + 2 ^ 63) mod 2 ^ 64 - 2 ^ 63
      | UInt64 \<Rightarrow> (- c) mod 2 ^ 64
      | Object \<Rightarrow> - c)"

text \<open>
  The nested \<^verbatim>\<open>np.where\<close> of \<^verbatim>\<open>process_trades\<close>, row by row, and the inversion for the
  linked market. An empty frame gives an empty frame.
\<close>

definition process_trades :: "trade_row list \<Rightarrow> bool \<Rightarrow> signed_trade list" where
  "process_trades trades_df is_inverse =
     (let details = map (\<lambda>(t, trade_data). (t, get_trade_details_imbalance trade_data)) trades_df;
          dt = infer_dtype (map (\<lambda>(t, c, s). c) details)
      in map (\<lambda>(t, c, s).
                (let v = (if s = ''yes'' then c else if s = ''no'' then negate dt c else 0)
                 in \<lparr>sv_timestamp = t, sv_count = c, sv_taker_side = s,
                     signed_volume = (if is_inverse then negate dt v else v)\<rparr>))
           details)"

section \<open>Temporal alignment and metrics (analyze_slippage.py, process_data)\<close>

text \<open>
  \<^verbatim>\<open>pd.merge_asof(left, right, direction='backward')\<close> is the library's two-pointer scan
  over the two key columns: for each left key in turn, \<^verbatim>\<open>right_pos\<close> (restarted at 0 when
  negative) advances while \<^verbatim>\<open>right_values[right_pos] <= left_values[left_pos]\<close>, then steps
  back by one; the position reached is the right row joined to that left row, and a
  negative position joins no row (the right columns are NaN). The library refuses keys
  that are not sorted; \<^verbatim>\<open>process_data\<close> sorts both frames before each join.
\<close>

function scan_right :: "int \<Rightarrow> int list \<Rightarrow> nat \<Rightarrow> nat" where
  "scan_right t right_values right_pos =
     (if right_pos < length right_values \<and> right_values ! right_pos \<le> t
      then scan_right t right_values (right_pos + 1)
      else right_pos)"
  by pat_completeness auto
termination
  by (relation "measure (\<lambda>(t, right_values, right_pos). length right_values - right_pos)") auto

declare scan_right.simps [simp del]

fun asof_join_backward :: "int list \<Rightarrow> int list \<Rightarrow> int \<Rightarrow> int list" where
  "asof_join_backward [] right_values right_pos = []"
| "asof_join_backward (t # left_values) right_values right_pos =
     (let start = (if right_pos < 0 then 0 else right_pos);
          found = int (scan_right t right_values (nat start)) - 1
      in found # asof_join_backward left_values right_values found)"

definition merge_asof_backward :: "int list \<Rightarrow> (int \<times> 'a) list \<Rightarrow> 'a option list" where
  "merge_asof_backward left_keys right =
     map (\<lambda>pos. if pos < 0 then None else Some (snd (right ! nat pos)))
       (asof_join_backward left_keys (map fst right) 0)"

text \<open>
  Steps 1 and 2 of \<^verbatim>\<open>process_data\<close>, with the sort of step 3: the snapshots that have a
  mid-price, as (timestamp, mid_price), and the trades that have an execution price, as
  (timestamp, exec_price, count), both ascending by timestamp. The nested
  \<^verbatim>\<open>get_trade_details\<close> reads
  \<^verbatim>\<open>data.get('yes_price', data.get('yes_price_dollars'))\<close> and \<^verbatim>\<open>data.get('count', 0)\<close>, and
  gives \<^verbatim>\<open>(None, None)\<close> when anything raises. \<^verbatim>\<open>dropna\<close> removes the rows without a
  mid-price, respectively without an execution price. \<^verbatim>\<open>sort_values\<close> leaves rows of equal
  timestamp in an order the library does not fix; the model keeps their order, and no
  property proved below depends on it. The frames are those the main program passes on:
  it skips a ticker whose trades or snapshots are empty (on an empty snapshot frame the
  unpacking of \<^verbatim>\<open>zip(*...)\<close> in step 1 raises). Timestamps are epoch seconds, so that a
  timestamp plus an interval stays far inside the 64-bit range of the column.
\<close>

definition get_trade_details_slippage :: "trade_json option \<Rightarrow> rat option \<times> int option" where
  "get_trade_details_slippage trade_json =
     (case trade_json of
        None \<Rightarrow> (None, None)
      | Some data \<Rightarrow>
          (case yes_price data of None \<Rightarrow> yes_price_dollars data | Some p \<Rightarrow> p,
           Some (case count data of None \<Rightarrow> 0 | Some c \<Rightarrow> c)))"

definition valid_snapshots :: "snapshot_row list \<Rightarrow> (int \<times> rat) list" where
  "valid_snapshots snapshots_df =
     sort_key fst
       (List.map_filter
          (\<lambda>(t, snapshot_data).
             map_option (\<lambda>m. (t, m)) (mid_price_of (get_best_prices snapshot_data)))
          snapshots_df)"

definition valid_trades :: "trade_row list \<Rightarrow> (int \<times> rat \<times> int option) list" where
  "valid_trades trades_df =
     sort_key fst
       (List.map_filter
          (\<lambda>(t, trade_data).
             (case get_trade_details_slippage trade_data of
                (None, c) \<Rightarrow> None
              | (Some p, c) \<Rightarrow> Some (t, p, c)))
          trades_df)"

text \<open>
  Step 4, row by row. \<^verbatim>\<open>np.select\<close> takes the first condition that holds and 0 when none
  does; a comparison with NaN does not hold. Arithmetic with NaN gives NaN.
\<close>

definition infer_side :: "rat \<Rightarrow> rat option \<Rightarrow> int" where
  "infer_side exec mid =
     (case mid of
        None \<Rightarrow> 0
      | Some m \<Rightarrow> if exec > m then 1 else if exec < m then - 1 else 0)"

definition slippage_of :: "rat \<Rightarrow> rat option \<Rightarrow> int \<Rightarrow> rat option" where
  "slippage_of exec mid sd =
     (case mid of None \<Rightarrow> None | Some m \<Rightarrow> Some ((exec - m) * of_int sd))"

text \<open>Step 5, row by row: the nested \<^verbatim>\<open>np.where\<close> on the side.\<close>

definition markout_of :: "int \<Rightarrow> rat \<Rightarrow> rat option \<Rightarrow> rat option" where
  "markout_of sd exec future_mid =
     (if sd = 1 then map_option (\<lambda>m. m - exec) future_mid
      else if sd = - 1 then map_option (\<lambda>m. exec - m) future_mid
      else Some 0)"

text \<open>
  A row of the frame \<^verbatim>\<open>merged_df\<close> that \<^verbatim>\<open>process_data\<close> returns. The columns
  \<^verbatim>\<open>mid_price_{interval}s\<close> and \<^verbatim>\<open>markout_{interval}s\<close> are kept by interval, in the order
  the loop adds them.
\<close>

record merged_row =
  timestamp :: int
  exec_price :: rat
  exec_count :: "int option"
  mid_price :: "rat option"
  side :: int
  slippage :: "rat option"
  slippage_paid :: "rat option"
  mid_price_s :: "(int \<times> rat option) list"
  markout_s :: "(int \<times> rat option) list"

definition intervals :: "int list" where
  "intervals = [1, 10, 30, 60, 300]"

definition merge_trades ::
  "(int \<times> rat \<times> int option) list \<Rightarrow> (int \<times> rat) list \<Rightarrow> merged_row list" where
  "merge_trades trades snaps =
     map2 (\<lambda>(t, exec, c) mid.
             (let sd = infer_side exec mid;
                  sl = slippage_of exec mid sd
              in \<lparr>timestamp = t, exec_price = exec, exec_count = c, mid_price = mid,
                  side = sd, slippage = sl,
                  slippage_paid =
                    (case (sl, c) of (Some x, Some n) \<Rightarrow> Some (x * of_int n) | _ \<Rightarrow> None),
                  mid_price_s = [], markout_s = []\<rparr>))
       trades (merge_asof_backward (map fst trades) snaps)"

definition add_markout :: "(int \<times> rat) list \<Rightarrow> merged_row list \<Rightarrow> int \<Rightarrow> merged_row list" where
  "add_markout snaps merged_df interval =
     (let ts_plus = map (\<lambda>r. timestamp r + interval) merged_df;
          temp = merge_asof_backward ts_plus snaps
      in map2 (\<lambda>r future_mid.
                 r\<lparr>mid_price_s := mid_price_s r @ [(interval, future_mid)],
                   markout_s := markout_s r @
                     [(interval, markout_of (side r) (exec_price r) future_mid)]\<rparr>)
           merged_df temp)"

definition process_data :: "trade_row list \<Rightarrow> snapshot_row list \<Rightarrow> merged_row list" where
  "process_data trades_df snapshots_df =
     (let snaps = valid_snapshots snapshots_df;
          trades = valid_trades trades_df
      in foldl (add_markout snaps) (merge_trades trades snaps) intervals)"

subsection \<open>A small tape\<close>

text \<open>
  Three trades and four snapshots of one market, used to run the analysis on concrete
  rows. The snapshots have the mid-prices 49, 53, 51 and 53 at the times 10, 11, 20 and 21;
  the first trade, at time 5, comes before every snapshot, the second, at 50 and time 10,
  is a buy (above the mid 49) and the third, at 50 and time 20, a sell (below the mid 51).
\<close>

abbreviation tape_trades :: "trade_row list" where
  "tape_trades \<equiv>
     [(5, Some \<lparr>count = Some 7, taker_side = Some ''yes'', yes_price = Some (Some 52),
                yes_price_dollars = None\<rparr>),
      (10, Some \<lparr>count = Some 2, taker_side = Some ''yes'', yes_price = Some (Some 50),
                 yes_price_dollars = None\<rparr>),
      (20, Some \<lparr>count = Some 3, taker_side = Some ''no'', yes_price = Some (Some 50),
                 yes_price_dollars = None\<rparr>)]"

abbreviation tape_snapshots :: "snapshot_row list" where
  "tape_snapshots \<equiv>
     [(10, Some \<lparr>yes = [(48, 1)], no = [(50, 1)]\<rparr>),
      (11, Some \<lparr>yes = [(52, 1)], no = [(46, 1)]\<rparr>),
      (20, Some \<lparr>yes = [(50, 4)], no = [(48, 4)]\<rparr>),
      (21, Some \<lparr>yes = [(52, 1)], no = [(46, 1)]\<rparr>)]"

section \<open>Properties of the order book state engine\<close>

subsection \<open>Reading a book back\<close>









text \<open>
  What a snapshot message does to a dictionary that already has levels: the pairs of the
  array are written over it, a later pair of the same price winning, and every other level
  stays.
\<close>

lemma map_of_store_levels:
  "map_of (store_levels d arr) = map_of d ++ map_of (rev arr)"
  unfolding store_levels_def
  by (induction arr arbitrary: d) (auto simp: update_conv')

subsection \<open>The delta update\<close>



subsection \<open>Sizes stay above zero\<close>

lemma levels_positive_update:
  "levels_positive d \<Longrightarrow> 0 < sz \<Longrightarrow> levels_positive (AList.update price sz d)"
  by (induction d) (auto simp: levels_positive_def)

lemma levels_positive_delete:
  "levels_positive d \<Longrightarrow> levels_positive (AList.delete price d)"
  by (induction d) (auto simp: levels_positive_def)

lemma levels_positive_apply_delta:
  "levels_positive d \<Longrightarrow> levels_positive (apply_delta_levels price delta d)"
  by (simp add: apply_delta_levels_def Let_def levels_positive_update levels_positive_delete)

lemma levels_positive_sort: "levels_positive (sort d) = levels_positive d"
  by (simp add: levels_positive_def list_all_iff)

lemma levels_positive_store_levels:
  "levels_positive d \<Longrightarrow> levels_positive arr \<Longrightarrow> levels_positive (store_levels d arr)"
  unfolding store_levels_def
proof (induction arr arbitrary: d)
  case Nil
  then show ?case by simp
next
  case (Cons a arr)
  obtain price sz where a: "a = (price, sz)" by (cases a)
  from Cons.prems(2) a have "0 < sz" and rest: "levels_positive arr"
    by (simp_all add: levels_positive_def)
  with Cons.prems(1) have "levels_positive (AList.update price sz d)"
    by (simp add: levels_positive_update)
  from Cons.IH [OF this rest] show ?case by (simp add: a)
qed

lemma books_positive_update:
  "list_all (\<lambda>(ticker, b). book_positive b) st \<Longrightarrow> book_positive b \<Longrightarrow>
   list_all (\<lambda>(ticker, b). book_positive b) (AList.update ticker b st)"
  by (induction st) auto

lemma book_positive_empty: "book_positive empty_book"
  by (simp add: book_positive_def empty_book_def levels_positive_def)

lemma books_positive_ensure:
  "list_all (\<lambda>(ticker, b). book_positive b) st \<Longrightarrow>
   list_all (\<lambda>(ticker, b). book_positive b) (ensure_book ticker st)"
  by (simp add: ensure_book_def books_positive_update book_positive_empty split: option.splits)

lemma books_positive_get:
  "list_all (\<lambda>(ticker, b). book_positive b) st \<Longrightarrow> book_positive (get_book st ticker)"
  by (auto simp: get_book_def book_positive_def empty_book_def levels_positive_def list_all_iff
        split: option.splits dest!: map_of_SomeD)

lemma book_positive_set_side:
  "book_positive b \<Longrightarrow> levels_positive d \<Longrightarrow> book_positive (set_side_levels b s d)"
  by (simp add: book_positive_def set_side_levels_def)

lemma side_levels_positive:
  "book_positive b \<Longrightarrow> side_levels b s = Inr d \<Longrightarrow> levels_positive d"
  by (auto simp: book_positive_def side_levels_def split: if_splits)

lemma sizes_positive_update:
  assumes "sizes_positive e"
  shows "sizes_positive (fst (update_orderbook_state f now ticker m e))"
proof -
  let ?st = "ensure_book ticker (orderbook_state e)"
  let ?b = "get_book ?st ticker"
  from assms have st: "list_all (\<lambda>(ticker, b). book_positive b) ?st"
    and log: "list_all (\<lambda>(timestamp, ticker, s). snapshot_positive s) (orderbook_snapshots e)"
    by (simp_all add: sizes_positive_def books_positive_ensure)
  from st have b: "book_positive ?b" by (rule books_positive_get)
  show ?thesis
  proof (cases "side_levels ?b (msg_side m)")
    case (Inl err)
    then show ?thesis using st log
      by (simp add: update_orderbook_state_def Let_def sizes_positive_def)
  next
    case (Inr d)
    let ?d' = "apply_delta_levels (msg_price m) (msg_delta m) d"
    let ?b' = "set_side_levels ?b (msg_side m) ?d'"
    from b Inr have "levels_positive ?d'"
      by (simp add: side_levels_positive levels_positive_apply_delta)
    with b have b': "book_positive ?b'" by (simp add: book_positive_set_side)
    then have "snapshot_positive \<lparr>yes = sort (book_yes ?b'), no = sort (book_no ?b')\<rparr>"
      by (simp add: snapshot_positive_def book_positive_def levels_positive_sort)
    with Inr st log b' show ?thesis
      by (simp add: update_orderbook_state_def Let_def sizes_positive_def
            store_orderbook_snapshot_def books_positive_update)
  qed
qed

lemma sizes_positive_initialize:
  assumes "sizes_positive e" and "snapshot_positive snapshot_msg"
  shows "sizes_positive (initialize_orderbook_from_snapshot now ticker snapshot_msg e)"
proof -
  let ?st = "ensure_book ticker (orderbook_state e)"
  let ?b = "get_book ?st ticker"
  from assms have st: "list_all (\<lambda>(ticker, b). book_positive b) ?st"
    and log: "list_all (\<lambda>(timestamp, ticker, s). snapshot_positive s) (orderbook_snapshots e)"
    by (simp_all add: sizes_positive_def books_positive_ensure)
  from st have b: "book_positive ?b" by (rule books_positive_get)
  with assms(2) have
    "book_positive (?b\<lparr>book_yes := store_levels (book_yes ?b) (yes snapshot_msg),
                       book_no := store_levels (book_no ?b) (no snapshot_msg)\<rparr>)"
    by (simp add: book_positive_def snapshot_positive_def levels_positive_store_levels)
  with st log assms(2) show ?thesis
    by (simp add: initialize_orderbook_from_snapshot_def Let_def sizes_positive_def
          store_orderbook_snapshot_def books_positive_update)
qed

lemma sizes_positive_apply_deltas:
  "sizes_positive e \<Longrightarrow> sizes_positive (apply_deltas f e ds)"
  unfolding apply_deltas_def
  by (induction ds arbitrary: e) (auto simp: sizes_positive_update)

lemma sizes_positive_empty: "sizes_positive empty_engine"
  by (simp add: sizes_positive_def empty_engine_def)

text \<open>
  Claim C3, as the source has it. \<^verbatim>\<open>update_orderbook_state\<close> keeps every stored level and
  every persisted level at a size above zero, whatever the delta, so every sequence of
  deltas applied to the empty engine does. \<^verbatim>\<open>initialize_orderbook_from_snapshot\<close> keeps
  the invariant when every size in the two arrays of the message is above zero: it
  stores the sizes of the message as they are and persists the message itself.
\<close>

theorem sizes_positive_preserved:
  "(sizes_positive e \<longrightarrow>
      sizes_positive (fst (update_orderbook_state fromisoformat now ticker m e)))
   \<and> (sizes_positive e \<and> snapshot_positive snapshot_msg \<longrightarrow>
      sizes_positive (initialize_orderbook_from_snapshot now' ticker' snapshot_msg e))
   \<and> sizes_positive (apply_deltas fromisoformat empty_engine ds)"
  by (simp add: sizes_positive_update sizes_positive_initialize sizes_positive_apply_deltas
        sizes_positive_empty)

text \<open>
  The theorem at an engine holding one level: a delta that takes the level below zero, a
  snapshot message of positive sizes, and two deltas on the empty engine.
\<close>

theorem sizes_positive_preserved_witness:
  "sizes_positive
     \<lparr>orderbook_state = [(''T'', \<lparr>book_yes = [(40, 5)], book_no = []\<rparr>)],
      orderbook_snapshots = [(7, ''T'', \<lparr>yes = [(40, 5)], no = []\<rparr>)]\<rparr>
   \<and> snapshot_positive \<lparr>yes = [(45, 3)], no = [(58, 10)]\<rparr>
   \<and> sizes_positive (fst (update_orderbook_state Map.empty 8 ''T''
         \<lparr>msg_price = 40, msg_delta = - 9, msg_side = ''yes'', msg_ts = []\<rparr>
         \<lparr>orderbook_state = [(''T'', \<lparr>book_yes = [(40, 5)], book_no = []\<rparr>)],
          orderbook_snapshots = [(7, ''T'', \<lparr>yes = [(40, 5)], no = []\<rparr>)]\<rparr>))
   \<and> sizes_positive (initialize_orderbook_from_snapshot 9 ''T''
         \<lparr>yes = [(45, 3)], no = [(58, 10)]\<rparr>
         \<lparr>orderbook_state = [(''T'', \<lparr>book_yes = [(40, 5)], book_no = []\<rparr>)],
          orderbook_snapshots = [(7, ''T'', \<lparr>yes = [(40, 5)], no = []\<rparr>)]\<rparr>)
   \<and> sizes_positive (apply_deltas Map.empty empty_engine
         [(1, ''T'', \<lparr>msg_price = 40, msg_delta = 5, msg_side = ''yes'', msg_ts = []\<rparr>),
          (2, ''T'', \<lparr>msg_price = 40, msg_delta = - 9, msg_side = ''yes'', msg_ts = []\<rparr>)])"
proof -
  let ?e = "\<lparr>orderbook_state = [(''T'', \<lparr>book_yes = [(40, 5)], book_no = []\<rparr>)],
      orderbook_snapshots = [(7, ''T'', \<lparr>yes = [(40::int, 5::int)], no = []\<rparr>)]\<rparr>"
  let ?s = "\<lparr>yes = [(45::int, 3::int)], no = [(58, 10)]\<rparr>"
  have e: "sizes_positive ?e"
    by (simp add: sizes_positive_def book_positive_def snapshot_positive_def levels_positive_def)
  have s: "snapshot_positive ?s"
    by (simp add: snapshot_positive_def levels_positive_def)
  from e s sizes_positive_preserved [of ?e Map.empty 8 "''T''"
      "\<lparr>msg_price = 40, msg_delta = - 9, msg_side = ''yes'', msg_ts = []\<rparr>" ?s 9 "''T''"
      "[(1, ''T'', \<lparr>msg_price = 40, msg_delta = 5, msg_side = ''yes'', msg_ts = []\<rparr>),
        (2, ''T'', \<lparr>msg_price = 40, msg_delta = - 9, msg_side = ''yes'', msg_ts = []\<rparr>)]"]
  show ?thesis by blast
qed

text \<open>
  Claim C3 as stated fails for the snapshot operation: on the empty engine, which
  satisfies the invariant, the message with the yes level \<^verbatim>\<open>[50, 0]\<close> leaves the size 0
  stored at price 50 and persisted.
\<close>

theorem initialize_stores_zero_size:
  "sizes_positive empty_engine
   \<and> \<not> sizes_positive (initialize_orderbook_from_snapshot 0 ''T''
          \<lparr>yes = [(50, 0)], no = []\<rparr> empty_engine)
   \<and> levels_of (initialize_orderbook_from_snapshot 0 ''T''
          \<lparr>yes = [(50, 0)], no = []\<rparr> empty_engine) ''T'' ''yes'' = [(50, 0)]
   \<and> orderbook_snapshots (initialize_orderbook_from_snapshot 0 ''T''
          \<lparr>yes = [(50, 0)], no = []\<rparr> empty_engine) = [(0, ''T'', \<lparr>yes = [(50, 0)], no = []\<rparr>)]"
  by (simp add: sizes_positive_def empty_engine_def initialize_orderbook_from_snapshot_def
        ensure_book_def get_book_def empty_book_def store_levels_def store_orderbook_snapshot_def
        book_positive_def snapshot_positive_def levels_positive_def levels_of_def side_levels_def)

subsection \<open>A second snapshot for the same market\<close>

text \<open>
  Claim C2 at two snapshot messages for one market. After the first, the book has yes
  40 (size 5) and no 60 (size 2). The second message has the yes level 45 (size 3) and no
  no levels: the book then holds yes 40 and 45 and still no 60, while the snapshot
  persisted for that moment is the second message alone. The levels absent from the second
  message are not removed.
\<close>

theorem initialize_keeps_prior_levels:
  "(let e1 = initialize_orderbook_from_snapshot 1 ''T''
               \<lparr>yes = [(40, 5)], no = [(60, 2)]\<rparr> empty_engine;
        e2 = initialize_orderbook_from_snapshot 2 ''T'' \<lparr>yes = [(45, 3)], no = []\<rparr> e1
    in levels_of e2 ''T'' ''yes'' = [(40, 5), (45, 3)]
       \<and> levels_of e2 ''T'' ''no'' = [(60, 2)]
       \<and> last (orderbook_snapshots e2) = (2, ''T'', \<lparr>yes = [(45, 3)], no = []\<rparr>))"
  by (simp add: empty_engine_def initialize_orderbook_from_snapshot_def
        ensure_book_def get_book_def empty_book_def store_levels_def store_orderbook_snapshot_def
        levels_of_def side_levels_def)

section \<open>Properties of the best-price extractors\<close>

lemma max_of_Max: "max_of p ps = Max (insert p (set ps))"
proof -
  have "fold max ps p = foldl max p ps" for p :: int
    by (induction ps arbitrary: p) (simp_all add: max.commute)
  with Max.set_eq_fold [of p ps] show ?thesis
    by (simp add: max_of_def)
qed

lemma get_best_prices_Some:
  "get_best_prices (Some data) =
     (Some (if yes data = [] then 0 else Max (fst ` set (yes data))),
      Some (if no data = [] then 100 else 100 - Max (fst ` set (no data))))"
  by (cases "yes data"; cases "no data")
     (simp_all add: get_best_prices_def Let_def max_of_Max)

lemma fst_max_by_price: "fst (max_by_price x xs) = Max (insert (fst x) (fst ` set xs))"
  unfolding max_by_price_def
proof (induction xs arbitrary: x)
  case Nil
  then show ?case by simp
next
  case (Cons y ys)
  let ?S = "fst ` set ys"
  have fin: "finite ?S" by simp
  show ?case
  proof (cases "fst x < fst y")
    case True
    have "fst y \<le> Max (insert (fst y) ?S)" by (rule Max_ge) simp_all
    with True have "max (fst x) (Max (insert (fst y) ?S)) = Max (insert (fst y) ?S)"
      by linarith
    moreover have "Max (insert (fst x) (insert (fst y) ?S)) = max (fst x) (Max (insert (fst y) ?S))"
      by (rule Max_insert) simp_all
    ultimately show ?thesis using True Cons.IH [of y] by simp
  next
    case False
    have "fst x \<le> Max (insert (fst x) ?S)" by (rule Max_ge) simp_all
    with False have "max (fst y) (Max (insert (fst x) ?S)) = Max (insert (fst x) ?S)"
      by linarith
    moreover have "Max (insert (fst y) (insert (fst x) ?S)) = max (fst y) (Max (insert (fst x) ?S))"
      by (rule Max_insert) simp_all
    ultimately show ?thesis using False Cons.IH [of x] by (simp add: insert_commute)
  qed
qed

text \<open>
  Claim C5. For every snapshot that decodes, \<^verbatim>\<open>get_best_prices\<close> returns as best bid the
  greatest price among the yes levels (0 when there are none) and as best ask 100 minus
  the greatest price among the no levels (100 when there are none), and the mid-price is
  half their sum. For yes levels 40 (size 5) and 45 (size 3) and no levels 50 (size 2) and
  58 (size 10) the best bid is 45, the best ask 42 and the mid-price 43.5.
\<close>

theorem best_prices_spec:
  "get_best_prices (Some data) =
     (Some (if yes data = [] then 0 else Max (fst ` set (yes data))),
      Some (if no data = [] then 100 else 100 - Max (fst ` set (no data))))
   \<and> mid_price_of (get_best_prices (Some data)) =
       Some ((of_int (if yes data = [] then 0 else Max (fst ` set (yes data)))
              + of_int (if no data = [] then 100 else 100 - Max (fst ` set (no data)))) / 2)
   \<and> get_best_prices (Some \<lparr>yes = [(40, 5), (45, 3)], no = [(50, 2), (58, 10)]\<rparr>)
       = (Some 45, Some 42)
   \<and> mid_price_of (get_best_prices (Some \<lparr>yes = [(40, 5), (45, 3)], no = [(50, 2), (58, 10)]\<rparr>))
       = Some (87 / 2)"
  by (simp add: get_best_prices_Some mid_price_of_def)

text \<open>
  Claim C10. For every snapshot that decodes and has at least one yes level and at least
  one no level, the best bid price and best ask price of \<^verbatim>\<open>parse_snapshot\<close> are those of
  \<^verbatim>\<open>get_best_prices\<close>: the greatest yes price, and 100 minus the greatest no price.
\<close>

theorem extractors_agree:
  assumes "yes data \<noteq> []" and "no data \<noteq> []"
  shows "(case parse_snapshot (Some data) of
            (best_bid_price, best_bid_size, best_ask_price, best_ask_size) \<Rightarrow>
              (best_bid_price, best_ask_price))
         = get_best_prices (Some data)
       \<and> get_best_prices (Some data) =
           (Some (Max (fst ` set (yes data))), Some (100 - Max (fst ` set (no data))))"
  using assms
  by (cases "yes data"; cases "no data")
     (simp_all add: get_best_prices_Some parse_snapshot_def Let_def fst_max_by_price)

text \<open>The two extractors on the snapshot of claim C5.\<close>

theorem extractors_agree_witness:
  "(case parse_snapshot (Some \<lparr>yes = [(40, 5), (45, 3)], no = [(50, 2), (58, 10)]\<rparr>) of
      (best_bid_price, best_bid_size, best_ask_price, best_ask_size) \<Rightarrow>
        (best_bid_price, best_ask_price))
   = (Some 45, Some 42)"
proof -
  let ?d = "\<lparr>yes = [(40::int, 5::int), (45, 3)], no = [(50::int, 2::int), (58, 10)]\<rparr>"
  have y: "yes ?d \<noteq> []" and n: "no ?d \<noteq> []" by simp_all
  from extractors_agree [OF y n] show ?thesis by simp
qed

section \<open>Properties of the trade normalizer\<close>

lemma lower_yes: "lower ''yes'' = ''yes''" and lower_no: "lower ''no'' = ''no''"
  by code_simp+

lemma lower_upper: "lower ''YES'' = ''yes''"
  by code_simp

lemma negate_in_range:
  assumes "\<bar>c\<bar> < 2 ^ 63"
  shows "negate Int64 c = - c"
proof -
  from assms have "0 \<le> - c + 2 ^ 63" and "- c + 2 ^ 63 < 2 ^ 64" by simp_all
  then have "(- c + 2 ^ 63) mod 2 ^ 64 = - c + 2 ^ 63" by (rule mod_pos_pos_trivial)
  then show ?thesis by (simp add: negate_def)
qed

lemma infer_dtype_in_range:
  assumes "\<forall>c \<in> set cs. \<bar>c\<bar> < 2 ^ 63"
  shows "infer_dtype cs = Int64"
proof -
  from assms have "list_all (\<lambda>c. - (2 ^ 63) \<le> c \<and> c < 2 ^ 63) cs"
    by (auto simp: list_all_iff)
  then show ?thesis by (simp add: infer_dtype_def)
qed

lemma process_trades_in_range:
  assumes "\<forall>row \<in> set trades_df. \<bar>fst (get_trade_details_imbalance (snd row))\<bar> < 2 ^ 63"
  shows "process_trades trades_df is_inverse =
           map (\<lambda>(t, trade_data).
                  (let (c, s) = get_trade_details_imbalance trade_data;
                       v = (if s = ''yes'' then c else if s = ''no'' then - c else 0)
                   in \<lparr>sv_timestamp = t, sv_count = c, sv_taker_side = s,
                       signed_volume = (if is_inverse then - v else v)\<rparr>))
               trades_df"
proof -
  let ?cs = "map (\<lambda>(t, c, s). c)
               (map (\<lambda>(t, trade_data). (t, get_trade_details_imbalance trade_data)) trades_df)"
  from assms have "\<forall>c \<in> set ?cs. \<bar>c\<bar> < 2 ^ 63" by (auto split: prod.splits)
  then have dt: "infer_dtype ?cs = Int64" by (rule infer_dtype_in_range)
  show ?thesis
    unfolding process_trades_def Let_def dt
    using assms by (auto simp: negate_in_range split: prod.splits)
qed

text \<open>
  Claim C7, as the source has it. For every frame of trades whose counts all lie strictly
  between \<open>-2^63\<close> and \<open>2^63\<close>, the signed volume of each trade that \<^verbatim>\<open>process_trades\<close>
  returns is the count when the trade's \<^verbatim>\<open>taker_side\<close>, lower-cased, is \<^verbatim>\<open>"yes"\<close>, minus the
  count when it is \<^verbatim>\<open>"no"\<close>, and 0 for any other value (a missing count reads as 0, a
  missing side as the empty string, and a trade that does not decode has the volume 0);
  the sign is negated when \<^verbatim>\<open>is_inverse\<close> is set. A yes trade of count 7 gives 7, a no
  trade of count 7 gives -7, and an inverted no trade of count 7 gives 7.
\<close>

theorem signed_volume_sign:
  assumes "\<forall>row \<in> set trades_df. \<bar>fst (get_trade_details_imbalance (snd row))\<bar> < 2 ^ 63"
  shows
   "map signed_volume (process_trades trades_df is_inverse) =
      map (\<lambda>(t, trade_data).
             (case trade_data of
                None \<Rightarrow> 0
              | Some data \<Rightarrow>
                  (let c = (case count data of None \<Rightarrow> 0 | Some c \<Rightarrow> c);
                       s = lower (case taker_side data of None \<Rightarrow> [] | Some s \<Rightarrow> s);
                       v = (if s = ''yes'' then c else if s = ''no'' then - c else 0)
                   in if is_inverse then - v else v)))
          trades_df
    \<and> map signed_volume (process_trades
        [(t, Some \<lparr>count = Some 7, taker_side = Some ''yes'', yes_price = p, yes_price_dollars = q\<rparr>)]
        False) = [7]
    \<and> map signed_volume (process_trades
        [(t, Some \<lparr>count = Some 7, taker_side = Some ''no'', yes_price = p, yes_price_dollars = q\<rparr>)]
        False) = [- 7]
    \<and> map signed_volume (process_trades
        [(t, Some \<lparr>count = Some 7, taker_side = Some ''no'', yes_price = p, yes_price_dollars = q\<rparr>)]
        True) = [7]"
proof (intro conjI)
  show "map signed_volume (process_trades trades_df is_inverse) =
      map (\<lambda>(t, trade_data).
             (case trade_data of
                None \<Rightarrow> 0
              | Some data \<Rightarrow>
                  (let c = (case count data of None \<Rightarrow> 0 | Some c \<Rightarrow> c);
                       s = lower (case taker_side data of None \<Rightarrow> [] | Some s \<Rightarrow> s);
                       v = (if s = ''yes'' then c else if s = ''no'' then - c else 0)
                   in if is_inverse then - v else v)))
          trades_df"
    unfolding process_trades_in_range [OF assms]
    by (auto simp: get_trade_details_imbalance_def Let_def split: prod.splits option.splits)
qed (simp_all add: process_trades_in_range get_trade_details_imbalance_def lower_yes lower_no)

text \<open>
  A frame of the linked market with a trade of side \<^verbatim>\<open>"NO"\<close> and count 7 and a trade that
  does not decode: the signed volumes are 7 and 0.
\<close>

theorem signed_volume_sign_witness:
  "list_all (\<lambda>row. \<bar>fst (get_trade_details_imbalance (snd row))\<bar> < 2 ^ 63)
      [(1, Some \<lparr>count = Some 7, taker_side = Some ''NO'', yes_price = None,
                 yes_price_dollars = None\<rparr>),
       (2, None)]
   \<and> map signed_volume (process_trades
      [(1, Some \<lparr>count = Some 7, taker_side = Some ''NO'', yes_price = None,
                 yes_price_dollars = None\<rparr>),
       (2, None)] True) = [7, 0]"
proof -
  let ?df = "[(1, Some \<lparr>count = Some 7, taker_side = Some ''NO'', yes_price = None,
                 yes_price_dollars = None\<rparr>), (2::int, None)]"
  have in_range: "\<forall>row \<in> set ?df. \<bar>fst (get_trade_details_imbalance (snd row))\<bar> < 2 ^ 63"
    by (simp add: get_trade_details_imbalance_def)
  have lower_NO: "lower ''NO'' = ''no''" by code_simp
  from signed_volume_sign [OF in_range, of True] in_range lower_NO
  show ?thesis by (simp add: list_all_iff)
qed

text \<open>
  Claim C7 as stated fails in two ways. The side is compared after lower-casing: a trade
  of side \<^verbatim>\<open>"YES"\<close>, which is neither \<^verbatim>\<open>"yes"\<close> nor \<^verbatim>\<open>"no"\<close>, and count 7 has the signed
  volume 7, not 0. The minus is that of the count column's machine type: a no trade of
  count \<open>2^63\<close> has the signed volume \<open>2^63\<close>, not \<open>-2^63\<close>.
\<close>

theorem signed_volume_case_and_wraparound:
  "''YES'' \<noteq> ''yes'' \<and> ''YES'' \<noteq> ''no''
   \<and> map signed_volume (process_trades
        [(1, Some \<lparr>count = Some 7, taker_side = Some ''YES'', yes_price = None,
                   yes_price_dollars = None\<rparr>)] False) = [7]
   \<and> map signed_volume (process_trades
        [(1, Some \<lparr>count = Some 9223372036854775808, taker_side = Some ''no'', yes_price = None,
                   yes_price_dollars = None\<rparr>)] False) = [9223372036854775808]"
  by code_simp

section \<open>Properties of the backward as-of join\<close>

lemma scan_right_ge: "right_pos \<le> scan_right t rv right_pos"
proof (induction t rv right_pos rule: scan_right.induct)
  case (1 t rv right_pos)
  show ?case
  proof (cases "right_pos < length rv \<and> rv ! right_pos \<le> t")
    case True
    with "1.IH" have "right_pos + 1 \<le> scan_right t rv (right_pos + 1)" by simp
    with True show ?thesis by (subst scan_right.simps) simp
  next
    case False
    then show ?thesis by (subst scan_right.simps) auto
  qed
qed

lemma scan_right_le: "right_pos \<le> length rv \<Longrightarrow> scan_right t rv right_pos \<le> length rv"
proof (induction t rv right_pos rule: scan_right.induct)
  case (1 t rv right_pos)
  show ?case
  proof (cases "right_pos < length rv \<and> rv ! right_pos \<le> t")
    case True
    with "1.IH" have "scan_right t rv (right_pos + 1) \<le> length rv" by simp
    with True show ?thesis by (subst scan_right.simps) simp
  next
    case False
    with "1.prems" show ?thesis by (subst scan_right.simps) auto
  qed
qed

lemma scan_right_prev:
  "right_pos < scan_right t rv right_pos \<Longrightarrow> rv ! (scan_right t rv right_pos - 1) \<le> t"
proof (induction t rv right_pos rule: scan_right.induct)
  case (1 t rv right_pos)
  show ?case
  proof (cases "right_pos < length rv \<and> rv ! right_pos \<le> t")
    case True
    then have unfold: "scan_right t rv right_pos = scan_right t rv (right_pos + 1)"
      by (subst scan_right.simps) simp
    show ?thesis
    proof (cases "right_pos + 1 < scan_right t rv (right_pos + 1)")
      case True
      with "1.IH" \<open>right_pos < length rv \<and> rv ! right_pos \<le> t\<close> unfold show ?thesis by simp
    next
      case False
      with scan_right_ge [of "right_pos + 1" t rv]
      have "scan_right t rv (right_pos + 1) = right_pos + 1" by simp
      with unfold True show ?thesis by simp
    qed
  next
    case False
    then have "scan_right t rv right_pos = right_pos" by (subst scan_right.simps) auto
    with "1.prems" show ?thesis by simp
  qed
qed

lemma scan_right_advances:
  assumes "right_pos < length rv" and "rv ! right_pos \<le> t"
  shows "right_pos < scan_right t rv right_pos"
proof -
  from assms have "scan_right t rv right_pos = scan_right t rv (right_pos + 1)"
    by (subst scan_right.simps) simp
  with scan_right_ge [of "right_pos + 1" t rv] show ?thesis by simp
qed

lemma length_asof_join_backward:
  "length (asof_join_backward left_keys rv right_pos) = length left_keys"
  by (induction left_keys arbitrary: right_pos) (simp_all add: Let_def)

lemma asof_join_backward_sound:
  assumes "sorted left_keys"
    and "0 < right_pos \<Longrightarrow>
           nat right_pos < length rv \<and> (\<forall>t \<in> set left_keys. rv ! nat right_pos \<le> t)"
    and "i < length left_keys"
    and "0 \<le> asof_join_backward left_keys rv right_pos ! i"
  shows "nat (asof_join_backward left_keys rv right_pos ! i) < length rv \<and>
         rv ! nat (asof_join_backward left_keys rv right_pos ! i) \<le> left_keys ! i"
  using assms
proof (induction left_keys arbitrary: right_pos i)
  case Nil
  then show ?case by simp
next
  case (Cons t left_keys)
  define start where "start = nat (if right_pos < 0 then 0 else right_pos)"
  define q where "q = scan_right t rv start"
  define found where "found = int q - 1"
  have step: "asof_join_backward (t # left_keys) rv right_pos =
                found # asof_join_backward left_keys rv found"
    by (simp add: Let_def found_def q_def start_def)
  have found: "nat found < length rv \<and> rv ! nat found \<le> t" if nonneg: "0 \<le> found"
  proof -
    from nonneg have pos: "0 < q" by (simp add: found_def)
    have "start < q \<and> start \<le> length rv"
    proof (cases "0 < right_pos")
      case True
      with Cons.prems(2) have in_range: "nat right_pos < length rv"
        and le: "rv ! nat right_pos \<le> t"
        by simp_all
      from True have "start = nat right_pos" by (simp add: start_def)
      with scan_right_advances [OF in_range le] in_range show ?thesis by (simp add: q_def)
    next
      case False
      then have "start = 0" by (simp add: start_def)
      with pos show ?thesis by simp
    qed
    then have "start < scan_right t rv start" and "scan_right t rv start \<le> length rv"
      by (simp_all add: q_def scan_right_le)
    moreover have "nat found = q - 1" unfolding found_def by arith
    ultimately show ?thesis using scan_right_prev [of start t rv] pos
      by (simp add: q_def)
  qed
  show ?case
  proof (cases i)
    case 0
    with Cons.prems(4) step have "0 \<le> found" by simp
    from found [OF this] 0 step show ?thesis by simp
  next
    case (Suc j)
    from Cons.prems(1) have sorted_rest: "sorted left_keys" and t_le: "\<forall>u \<in> set left_keys. t \<le> u"
      by simp_all
    have inv: "nat found < length rv \<and> (\<forall>u \<in> set left_keys. rv ! nat found \<le> u)"
      if "0 < found"
    proof -
      from that have "0 \<le> found" by simp
      from found [OF this] t_le show ?thesis by auto
    qed
    from Cons.prems(3) Suc have j: "j < length left_keys" by simp
    from Cons.prems(4) Suc step have nonneg: "0 \<le> asof_join_backward left_keys rv found ! j"
      by simp
    from Cons.IH [OF sorted_rest inv j nonneg] Suc step show ?thesis by simp
  qed
qed

lemma sorted_valid_trades: "sorted (map fst (valid_trades trades_df))"
  by (simp add: valid_trades_def)

lemma sorted_shift: "sorted (xs :: int list) \<Longrightarrow> sorted (map (\<lambda>t. t + h) xs)"
  by (induction xs) auto

lemma asof_join_from_start:
  assumes "sorted left_keys" and "i < length left_keys"
    and "0 \<le> asof_join_backward left_keys (map fst right) 0 ! i"
  shows "nat (asof_join_backward left_keys (map fst right) 0 ! i) < length right \<and>
         fst (right ! nat (asof_join_backward left_keys (map fst right) 0 ! i)) \<le> left_keys ! i"
proof -
  have "0 < (0::int) \<Longrightarrow> nat 0 < length (map fst right) \<and>
          (\<forall>t \<in> set left_keys. map fst right ! nat 0 \<le> t)"
    by simp
  from asof_join_backward_sound [OF assms(1) this assms(2) assms(3)] show ?thesis by auto
qed

lemma merge_asof_backward_nth:
  "i < length left_keys \<Longrightarrow>
   merge_asof_backward left_keys right ! i =
     (let pos = asof_join_backward left_keys (map fst right) 0 ! i
      in if pos < 0 then None else Some (snd (right ! nat pos)))"
  by (simp add: merge_asof_backward_def length_asof_join_backward Let_def)

lemma length_merge_asof_backward:
  "length (merge_asof_backward left_keys right) = length left_keys"
  by (simp add: merge_asof_backward_def length_asof_join_backward)

subsection \<open>The rows of \<^verbatim>\<open>process_data\<close>\<close>

lemma length_merge_trades: "length (merge_trades trades snaps) = length trades"
  by (simp add: merge_trades_def length_merge_asof_backward)

lemma merge_trades_nth:
  assumes "i < length trades"
  shows "merge_trades trades snaps ! i =
     (let exec = fst (snd (trades ! i));
          c = snd (snd (trades ! i));
          mid = merge_asof_backward (map fst trades) snaps ! i;
          sd = infer_side exec mid;
          sl = slippage_of exec mid sd
      in \<lparr>timestamp = fst (trades ! i), exec_price = exec, exec_count = c, mid_price = mid,
          side = sd, slippage = sl,
          slippage_paid = (case (sl, c) of (Some x, Some n) \<Rightarrow> Some (x * of_int n) | _ \<Rightarrow> None),
          mid_price_s = [], markout_s = []\<rparr>)"
  using assms
  by (cases "trades ! i") (simp add: merge_trades_def length_merge_asof_backward Let_def)

lemma length_add_markout: "length (add_markout snaps rows h) = length rows"
  by (simp add: add_markout_def Let_def length_merge_asof_backward)

lemma add_markout_nth:
  assumes "i < length rows"
  shows "add_markout snaps rows h ! i =
     (let r = rows ! i;
          future_mid = merge_asof_backward (map (\<lambda>r. timestamp r + h) rows) snaps ! i
      in r\<lparr>mid_price_s := mid_price_s r @ [(h, future_mid)],
           markout_s := markout_s r @ [(h, markout_of (side r) (exec_price r) future_mid)]\<rparr>)"
  using assms
  by (simp add: add_markout_def Let_def length_merge_asof_backward)

lemma add_markout_timestamps:
  "map timestamp (add_markout snaps rows h) = map timestamp rows"
  by (rule nth_equalityI) (simp_all add: length_add_markout add_markout_nth Let_def)

lemma foldl_add_markout:
  "length (foldl (add_markout snaps) rows hs) = length rows \<and>
   (\<forall>i < length rows.
      foldl (add_markout snaps) rows hs ! i =
        (let r = rows ! i;
             future_mid = (\<lambda>h. merge_asof_backward (map (\<lambda>t. t + h) (map timestamp rows)) snaps ! i)
         in r\<lparr>mid_price_s := mid_price_s r @ map (\<lambda>h. (h, future_mid h)) hs,
              markout_s := markout_s r @
                map (\<lambda>h. (h, markout_of (side r) (exec_price r) (future_mid h))) hs\<rparr>))"
proof (induction hs arbitrary: rows)
  case Nil
  then show ?case by simp
next
  case (Cons h hs)
  let ?rows' = "add_markout snaps rows h"
  have len: "length ?rows' = length rows" by (rule length_add_markout)
  have ts: "map timestamp ?rows' = map timestamp rows" by (rule add_markout_timestamps)
  from Cons.IH [of ?rows'] len ts show ?case
    by (simp add: add_markout_nth Let_def comp_def)
qed

lemma map_of_map_key:
  "map_of (map (\<lambda>k. (k, f k)) ks) k = (if k \<in> set ks then Some (f k) else None)"
  by (induction ks) auto

lemma merge_trades_timestamps: "map timestamp (merge_trades trades snaps) = map fst trades"
  by (rule nth_equalityI) (simp_all add: length_merge_trades merge_trades_nth Let_def)

lemma length_process_data:
  "length (process_data trades_df snapshots_df) = length (valid_trades trades_df)"
  by (simp add: process_data_def Let_def foldl_add_markout length_merge_trades)

lemma process_data_nth:
  assumes "i < length (valid_trades trades_df)"
  shows "process_data trades_df snapshots_df ! i =
     (let trades = valid_trades trades_df;
          snaps = valid_snapshots snapshots_df;
          exec = fst (snd (trades ! i));
          c = snd (snd (trades ! i));
          mid = merge_asof_backward (map fst trades) snaps ! i;
          sd = infer_side exec mid;
          sl = slippage_of exec mid sd;
          future_mid = (\<lambda>h. merge_asof_backward (map (\<lambda>t. t + h) (map fst trades)) snaps ! i)
      in \<lparr>timestamp = fst (trades ! i), exec_price = exec, exec_count = c, mid_price = mid,
          side = sd, slippage = sl,
          slippage_paid = (case (sl, c) of (Some x, Some n) \<Rightarrow> Some (x * of_int n) | _ \<Rightarrow> None),
          mid_price_s = map (\<lambda>h. (h, future_mid h)) intervals,
          markout_s = map (\<lambda>h. (h, markout_of sd exec (future_mid h))) intervals\<rparr>)"
proof -
  let ?trades = "valid_trades trades_df"
  let ?snaps = "valid_snapshots snapshots_df"
  from assms have "i < length (merge_trades ?trades ?snaps)" by (simp add: length_merge_trades)
  with foldl_add_markout [of ?snaps "merge_trades ?trades ?snaps" intervals] assms
  show ?thesis
    by (simp add: process_data_def Let_def merge_trades_timestamps merge_trades_nth)
qed

text \<open>
  The joins behind the columns: the mid-price of a row is the join of the trade times with
  the snapshots, and the column \<^verbatim>\<open>mid_price_{h}s\<close> the join of the trade times shifted by
  \<open>h\<close>.
\<close>

lemma process_data_joins:
  assumes "i < length (valid_trades trades_df)"
  shows "mid_price (process_data trades_df snapshots_df ! i) =
           merge_asof_backward (map (\<lambda>r. fst r + 0) (valid_trades trades_df))
             (valid_snapshots snapshots_df) ! i"
    and "h \<in> set intervals \<Longrightarrow>
         map_of (mid_price_s (process_data trades_df snapshots_df ! i)) h =
           Some (merge_asof_backward (map (\<lambda>r. fst r + h) (valid_trades trades_df))
                   (valid_snapshots snapshots_df) ! i)"
  using assms by (simp_all add: process_data_nth Let_def map_of_map_key comp_def)

lemma process_data_tape:
  "process_data tape_trades tape_snapshots =
     [\<lparr>timestamp = 5, exec_price = 52, exec_count = Some 7, mid_price = None,
       side = 0, slippage = None, slippage_paid = None,
       mid_price_s = [(1, None), (10, Some 53), (30, Some 53), (60, Some 53), (300, Some 53)],
       markout_s = [(1, Some 0), (10, Some 0), (30, Some 0), (60, Some 0), (300, Some 0)]\<rparr>,
      \<lparr>timestamp = 10, exec_price = 50, exec_count = Some 2, mid_price = Some 49,
       side = 1, slippage = Some 1, slippage_paid = Some 2,
       mid_price_s = [(1, Some 53), (10, Some 51), (30, Some 53), (60, Some 53), (300, Some 53)],
       markout_s = [(1, Some 3), (10, Some 1), (30, Some 3), (60, Some 3), (300, Some 3)]\<rparr>,
      \<lparr>timestamp = 20, exec_price = 50, exec_count = Some 3, mid_price = Some 51,
       side = - 1, slippage = Some 1, slippage_paid = Some 3,
       mid_price_s = [(1, Some 53), (10, Some 53), (30, Some 53), (60, Some 53), (300, Some 53)],
       markout_s = [(1, Some (- 3)), (10, Some (- 3)), (30, Some (- 3)), (60, Some (- 3)),
                    (300, Some (- 3))]\<rparr>]"
  by code_simp

subsection \<open>No look-ahead\<close>

text \<open>
  Claim C1. For every frame of trades and every frame of snapshots, sorted by timestamp as
  \<^verbatim>\<open>process_data\<close> sorts them, and every shift \<open>h\<close> of the trade times (0 for the
  mid-price at trade time, and each of the horizons 1, 10, 30, 60 and 300 seconds), the
  snapshot that the backward as-of join selects for a trade is a row of the snapshot frame
  whose timestamp is at most the query time, the trade time plus \<open>h\<close>; its mid-price is the
  value joined.
\<close>

theorem asof_join_never_looks_ahead:
  assumes "trades = valid_trades trades_df"
    and "snaps = valid_snapshots snapshots_df"
    and "query = map (\<lambda>r. fst r + h) trades"
    and "i < length trades"
    and "pos = asof_join_backward query (map fst snaps) 0 ! i"
    and "0 \<le> pos"
  shows "nat pos < length snaps \<and> fst (snaps ! nat pos) \<le> query ! i
         \<and> merge_asof_backward query snaps ! i = Some (snd (snaps ! nat pos))"
proof -
  have "sorted (map (\<lambda>t. t + h) (map fst trades))"
    unfolding assms(1) by (rule sorted_shift) (rule sorted_valid_trades)
  then have sorted_query: "sorted query" by (simp add: assms(3) comp_def)
  from assms(3,4) have i: "i < length query" by simp
  from assms(5,6) have "0 \<le> asof_join_backward query (map fst snaps) 0 ! i" by simp
  from asof_join_from_start [OF sorted_query i this] assms(5,6) i show ?thesis
    by (simp add: merge_asof_backward_nth)
qed

text \<open>
  On the tape, the second trade (time 10) at the horizon of 1 second: the join selects the
  snapshot of time 11.
\<close>

theorem asof_join_never_looks_ahead_witness:
  "1 < length (valid_trades tape_trades)
   \<and> 0 \<le> asof_join_backward (map (\<lambda>r. fst r + 1) (valid_trades tape_trades))
            (map fst (valid_snapshots tape_snapshots)) 0 ! 1
   \<and> fst (valid_snapshots tape_snapshots !
        nat (asof_join_backward (map (\<lambda>r. fst r + 1) (valid_trades tape_trades))
               (map fst (valid_snapshots tape_snapshots)) 0 ! 1))
      \<le> map (\<lambda>r. fst r + 1) (valid_trades tape_trades) ! 1"
proof -
  have i: "1 < length (valid_trades tape_trades)" by code_simp
  have pos: "0 \<le> asof_join_backward (map (\<lambda>r. fst r + 1) (valid_trades tape_trades))
            (map fst (valid_snapshots tape_snapshots)) 0 ! 1"
    by code_simp
  from asof_join_never_looks_ahead [OF refl refl refl i refl pos] i pos
  show ?thesis by blast
qed

section \<open>Properties of the metrics\<close>

lemma process_data_side:
  assumes "i < length (valid_trades trades_df)"
  shows "side (process_data trades_df snapshots_df ! i) =
           infer_side (exec_price (process_data trades_df snapshots_df ! i))
             (mid_price (process_data trades_df snapshots_df ! i))"
    and "slippage (process_data trades_df snapshots_df ! i) =
           slippage_of (exec_price (process_data trades_df snapshots_df ! i))
             (mid_price (process_data trades_df snapshots_df ! i))
             (side (process_data trades_df snapshots_df ! i))"
    and "slippage_paid (process_data trades_df snapshots_df ! i) =
           (case (slippage (process_data trades_df snapshots_df ! i),
                  exec_count (process_data trades_df snapshots_df ! i)) of
              (Some x, Some n) \<Rightarrow> Some (x * of_int n) | _ \<Rightarrow> None)"
  using assms by (simp_all add: process_data_nth Let_def)

lemma process_data_markout:
  assumes "i < length (valid_trades trades_df)" and "h \<in> set intervals"
  shows "\<exists>future_mid.
           map_of (mid_price_s (process_data trades_df snapshots_df ! i)) h = Some future_mid \<and>
           map_of (markout_s (process_data trades_df snapshots_df ! i)) h =
             Some (markout_of (side (process_data trades_df snapshots_df ! i))
                     (exec_price (process_data trades_df snapshots_df ! i)) future_mid)"
  using assms by (simp add: process_data_nth Let_def map_of_map_key)

lemma process_data_row:
  assumes "r \<in> set (process_data trades_df snapshots_df)"
  obtains i where "i < length (valid_trades trades_df)"
    and "r = process_data trades_df snapshots_df ! i"
  using assms by (auto simp: in_set_conv_nth length_process_data)

text \<open>
  Claim C6 at one trade, of execution price 52 and count 7 at time 5, and one snapshot, of
  mid-price 49 at time 10: no snapshot is at or before the trade. The claim has the trade
  excluded from the slippage and the markout computation, dropped and not zero-filled.
  \<^verbatim>\<open>process_data\<close> returns a frame of one row, that trade: it has no mid-price at trade
  time, so both comparisons of \<^verbatim>\<open>np.select\<close> fail and the side is the default 0, which
  the source gives to an execution at the mid-price; the slippage and the slippage paid
  have no value, and the markout is 0 at each of the five horizons, also where the future
  mid-price is defined (49 from the horizon of 10 seconds on).
\<close>

theorem trade_before_first_snapshot_kept:
  "process_data
     [(5, Some \<lparr>count = Some 7, taker_side = Some ''yes'', yes_price = Some (Some 52),
                yes_price_dollars = None\<rparr>)]
     [(10, Some \<lparr>yes = [(48, 1)], no = [(50, 1)]\<rparr>)]
   = [\<lparr>timestamp = 5, exec_price = 52, exec_count = Some 7, mid_price = None,
       side = 0, slippage = None, slippage_paid = None,
       mid_price_s = [(1, None), (10, Some 49), (30, Some 49), (60, Some 49), (300, Some 49)],
       markout_s = [(1, Some 0), (10, Some 0), (30, Some 0), (60, Some 0), (300, Some 0)]\<rparr>]"
  by code_simp

text \<open>
  Claim C8. In every row that \<^verbatim>\<open>process_data\<close> returns and for every horizon, the markout
  is the future mid-price (the column \<^verbatim>\<open>mid_price_{h}s\<close>) minus the execution price when
  the side is 1, the execution price minus the future mid-price when the side is -1, and
  0 otherwise; it has no value when the side is 1 or -1 and the future mid-price has none.
  With side 1, execution price 50 and future mid-price 53 the markout is 3; with side -1
  it is -3.
\<close>

theorem markout_sign_convention:
  "(\<forall>r \<in> set (process_data trades_df snapshots_df). \<forall>h \<in> set intervals.
      \<exists>future_mid.
        map_of (mid_price_s r) h = Some future_mid \<and>
        map_of (markout_s r) h =
          Some (if side r = 1 then map_option (\<lambda>m. m - exec_price r) future_mid
                else if side r = - 1 then map_option (\<lambda>m. exec_price r - m) future_mid
                else Some 0))
   \<and> markout_of 1 50 (Some 53) = Some 3
   \<and> markout_of (- 1) 50 (Some 53) = Some (- 3)"
proof (intro conjI ballI)
  fix r h
  assume r: "r \<in> set (process_data trades_df snapshots_df)" and h: "h \<in> set intervals"
  from r obtain i where i: "i < length (valid_trades trades_df)"
    and ri: "r = process_data trades_df snapshots_df ! i"
    by (rule process_data_row)
  show "\<exists>future_mid.
        map_of (mid_price_s r) h = Some future_mid \<and>
        map_of (markout_s r) h =
          Some (if side r = 1 then map_option (\<lambda>m. m - exec_price r) future_mid
                else if side r = - 1 then map_option (\<lambda>m. exec_price r - m) future_mid
                else Some 0)"
    using process_data_markout [OF i h, of snapshots_df]
    unfolding ri markout_of_def by blast
qed (simp_all add: markout_of_def)

text \<open>
  On the tape, at the horizon of 1 second: the buy at 50 has the markout 3 and the sell at
  50 the markout -3, the future mid-price being 53 for both.
\<close>

theorem markout_sign_convention_witness:
  "map_of (markout_s (process_data tape_trades tape_snapshots ! 1)) 1 = Some (Some 3)
   \<and> map_of (markout_s (process_data tape_trades tape_snapshots ! 2)) 1 = Some (Some (- 3))"
proof -
  let ?buy = "process_data tape_trades tape_snapshots ! 1"
  let ?sell = "process_data tape_trades tape_snapshots ! 2"
  have mem: "?buy \<in> set (process_data tape_trades tape_snapshots)"
    "?sell \<in> set (process_data tape_trades tape_snapshots)"
    by (simp_all add: process_data_tape)
  have h: "1 \<in> set intervals" by (simp add: intervals_def)
  have buy: "side ?buy = 1" "exec_price ?buy = 50" "map_of (mid_price_s ?buy) 1 = Some (Some 53)"
    by (simp_all add: process_data_tape)
  have sell: "side ?sell = - 1" "exec_price ?sell = 50"
    "map_of (mid_price_s ?sell) 1 = Some (Some 53)"
    by (simp_all add: process_data_tape)
  from markout_sign_convention [of tape_trades tape_snapshots] mem(1) h buy
  have "map_of (markout_s ?buy) 1 = Some (Some 3)" by fastforce
  moreover from markout_sign_convention [of tape_trades tape_snapshots] mem(2) h sell
  have "map_of (markout_s ?sell) 1 = Some (Some (- 3))" by fastforce
  ultimately show ?thesis by simp
qed

text \<open>
  Claim C9. In every row that \<^verbatim>\<open>process_data\<close> returns with a mid-price at trade time, the
  side is 1 when the execution price is above the mid-price, -1 when it is below and 0
  when they are equal, the slippage is the execution price minus the mid-price, times the
  side, and it is not negative. An execution price of 52 on a mid-price of 50 gives side 1
  and slippage 2; 48 on 50 gives side -1 and slippage 2.
\<close>

theorem slippage_nonnegative:
  "(\<forall>r \<in> set (process_data trades_df snapshots_df). \<forall>m. mid_price r = Some m \<longrightarrow>
      side r = (if exec_price r > m then 1 else if exec_price r < m then - 1 else 0)
      \<and> slippage r = Some ((exec_price r - m) * of_int (side r))
      \<and> 0 \<le> (exec_price r - m) * of_int (side r))
   \<and> infer_side 52 (Some 50) = 1
   \<and> slippage_of 52 (Some 50) (infer_side 52 (Some 50)) = Some 2
   \<and> infer_side 48 (Some 50) = - 1
   \<and> slippage_of 48 (Some 50) (infer_side 48 (Some 50)) = Some 2"
proof (intro conjI ballI allI impI)
  fix r m
  assume r: "r \<in> set (process_data trades_df snapshots_df)" and mid: "mid_price r = Some m"
  from r obtain i where i: "i < length (valid_trades trades_df)"
    and ri: "r = process_data trades_df snapshots_df ! i"
    by (rule process_data_row)
  from process_data_side(1) [OF i, of snapshots_df] ri mid
  show sd: "side r = (if exec_price r > m then 1 else if exec_price r < m then - 1 else 0)"
    by (simp add: infer_side_def)
  from process_data_side(2) [OF i, of snapshots_df] ri mid
  show "slippage r = Some ((exec_price r - m) * of_int (side r))"
    by (simp add: slippage_of_def)
  from sd show "0 \<le> (exec_price r - m) * of_int (side r)"
    by (simp split: if_splits)
qed (simp_all add: infer_side_def slippage_of_def)

text \<open>On the tape, the sell at 50 on the mid-price 51.\<close>

theorem slippage_nonnegative_witness:
  "mid_price (process_data tape_trades tape_snapshots ! 2) = Some 51
   \<and> side (process_data tape_trades tape_snapshots ! 2) = - 1
   \<and> slippage (process_data tape_trades tape_snapshots ! 2)
       = Some ((exec_price (process_data tape_trades tape_snapshots ! 2) - 51) * of_int (- 1))
   \<and> 0 \<le> (exec_price (process_data tape_trades tape_snapshots ! 2) - 51) * of_int (- 1 :: int)"
proof -
  let ?r = "process_data tape_trades tape_snapshots ! 2"
  have mem: "?r \<in> set (process_data tape_trades tape_snapshots)"
    by (simp add: process_data_tape)
  have mid: "mid_price ?r = Some 51" and sd: "side ?r = - 1" by (simp_all add: process_data_tape)
  from slippage_nonnegative [of tape_trades tape_snapshots] mem mid
  have "slippage ?r = Some ((exec_price ?r - 51) * of_int (side ?r))
        \<and> 0 \<le> (exec_price ?r - 51) * of_int (side ?r)"
    by blast
  with mid sd show ?thesis by simp
qed

end
